theory Spec2Isabelle
  imports Complex_Main
begin

section \<open>WebGLLayer.js: numbers and colours\<close>

text \<open>
  JavaScript numbers are modelled as real numbers: every arithmetic operation of the
  source is the exact operation on \<^typ>\<open>real\<close>, so rounding of doubles (and of the
  \<open>Float32Array\<close> that holds the matrices), \<open>NaN\<close> and the infinities are outside the
  model. Counters and array indices, which the source only ever moves through the natural
  numbers, are \<^typ>\<open>nat\<close>.

  A colour is the three-element array \<open>[r, g, b]\<close> of the source, here a triple;
  \<open>color[0]\<close>, \<open>color[1]\<close>, \<open>color[2]\<close> are its components in that order.
\<close>

type_synonym color = "real \<times> real \<times> real"

text \<open>
  The source marks its private functions with a trailing underscore (\<open>latToY_\<close>,
  \<open>lngToX_\<close>, \<open>scaleMatrix_\<close>, ...); the names below drop it.

  \<open>WebGLLayer.latToY_\<close>
\<close>

definition latToY :: "real \<Rightarrow> real" where
  "latToY lat =
     (let merc = - ln (tan ((0.25 + lat / 360) * pi))
      in 128 * (1 + merc / pi))"

text \<open>\<open>WebGLLayer.lngToX_\<close>\<close>

definition lngToX :: "real \<Rightarrow> real" where
  "lngToX lng =
     (if lng > 180 then 256 * (lng / 360 - 0.5)
      else 256 * (lng / 360 + 0.5))"

text \<open>\<open>WebGLLayer.packColor\<close>; \<open>Math.floor\<close> is \<^const>\<open>floor\<close>.\<close>

definition packColor :: "color \<Rightarrow> real" where
  "packColor color =
     (case color of (c0, c1, c2) \<Rightarrow>
        let c_precision = 128;
            c_precisionp1 = c_precision + 1
        in of_int \<lfloor>c0 * c_precision + 0.5\<rfloor>
           + of_int \<lfloor>c2 * c_precision + 0.5\<rfloor> * c_precisionp1
           + of_int \<lfloor>c1 * c_precision + 0.5\<rfloor> * c_precisionp1 * c_precisionp1)"

text \<open>
  \<open>float2color\<close> of \<open>WebGLLayer.DEFAULT_POINT_FRAG_SHADER_\<close>, the decoding the fragment
  shader applies to a packed colour; the result is \<open>(color.r, color.g, color.b)\<close>. GLSL
  defines \<open>mod(x, y)\<close> as \<open>x - y * floor(x / y)\<close>.
\<close>

definition glsl_mod :: "real \<Rightarrow> real \<Rightarrow> real" where
  "glsl_mod x y = x - y * of_int \<lfloor>x / y\<rfloor>"

definition float2color :: "real \<Rightarrow> color" where
  "float2color v =
     (let c_precision = 128;
          c_precisionp1 = c_precision + 1;
          r = glsl_mod v c_precisionp1 / c_precision;
          b = glsl_mod (of_int \<lfloor>v / c_precisionp1\<rfloor>) c_precisionp1 / c_precision;
          g = of_int \<lfloor>v / (c_precisionp1 * c_precisionp1)\<rfloor> / c_precision
      in (r, g, b))"

text \<open>\<open>WebGLLayer.coordsToXY_\<close>: a coordinate is the pair \<open>[lng, lat]\<close>.\<close>

definition coordsToXY :: "real \<times> real \<Rightarrow> real \<times> real" where
  "coordsToXY coords = (lngToX (fst coords), latToY (snd coords))"

section \<open>The view transform\<close>

text \<open>
  A matrix is the \<open>Float32Array(16)\<close> of the source, column-major, here a list of 16
  reals. \<open>m[i] *= v\<close> and \<open>m[i] += v\<close> are list updates at a fixed index, in the order
  of the source.

  \<open>WebGLLayer.scaleMatrix_\<close>
\<close>

definition scaleMatrix :: "real list \<Rightarrow> real \<Rightarrow> real \<Rightarrow> real list" where
  "scaleMatrix matrix scaleX scaleY =
     (let m = matrix;
          m = m[0 := m ! 0 * scaleX];
          m = m[1 := m ! 1 * scaleX];
          m = m[2 := m ! 2 * scaleX];
          m = m[3 := m ! 3 * scaleX];
          m = m[4 := m ! 4 * scaleY];
          m = m[5 := m ! 5 * scaleY];
          m = m[6 := m ! 6 * scaleY];
          m = m[7 := m ! 7 * scaleY]
      in m)"

text \<open>\<open>WebGLLayer.translateMatrix_\<close>\<close>

definition translateMatrix :: "real list \<Rightarrow> real \<Rightarrow> real \<Rightarrow> real list" where
  "translateMatrix matrix tx ty =
     (let m = matrix;
          m = m[12 := m ! 12 + (m ! 0 * tx + m ! 4 * ty)];
          m = m[13 := m ! 13 + (m ! 1 * tx + m ! 5 * ty)];
          m = m[14 := m ! 14 + (m ! 2 * tx + m ! 6 * ty)];
          m = m[15 := m ! 15 + (m ! 3 * tx + m ! 7 * ty)]
      in m)"

text \<open>
  \<open>WebGLLayer.prototype.resize_\<close>, the matrix it stores in \<open>pixelsToWebGLMatrix_\<close>.
  The canvas sizes are positive where it is used below (a division by zero is
  \<open>Infinity\<close> in the source and \<open>0\<close> in HOL).
\<close>

definition resize :: "real \<Rightarrow> real \<Rightarrow> real \<Rightarrow> real list" where
  "resize resolutionScale canvasWidth canvasHeight =
     [2 * resolutionScale / canvasWidth, 0, 0, 0,
      0, -2 * resolutionScale / canvasHeight, 0, 0,
      0, 0, 0, 0,
      -1, 1, 0, 1]"

text \<open>
  The part of \<open>WebGLLayer.prototype.update\<close> that computes \<open>mapMatrix_\<close> (lines 583 to
  591): copy \<open>pixelsToWebGLMatrix_\<close>, scale by \<open>Math.pow(2, zoom)\<close>, translate by the
  negated offset. The zoom and the offset \<open>(x, y)\<close> of the top-left corner come from the
  map and are parameters.
\<close>

definition update_mapMatrix :: "real list \<Rightarrow> real \<Rightarrow> real \<times> real \<Rightarrow> real list" where
  "update_mapMatrix pixelsToWebGLMatrix zoom offset =
     (let mapMatrix = pixelsToWebGLMatrix;
          scale = 2 powr zoom;
          mapMatrix = scaleMatrix mapMatrix scale scale;
          mapMatrix = translateMatrix mapMatrix (- fst offset) (- snd offset)
      in mapMatrix)"

section \<open>The feature buffers\<close>

text \<open>
  A JavaScript array of numbers is a list of cells; a cell is \<open>Some v\<close> for the number
  \<open>v\<close> and \<open>None\<close> for a hole (an index below \<open>length\<close> that was never written and
  reads as \<open>undefined\<close>). \<open>a.push(v)\<close> appends one cell. \<open>a[i] = v\<close> overwrites the cell
  when \<open>i < a.length\<close> and otherwise extends the array up to index \<open>i\<close>, leaving holes
  in between.
\<close>

type_synonym jsarray = "real option list"

definition push :: "jsarray \<Rightarrow> real \<Rightarrow> jsarray" where
  "push a v = a @ [Some v]"

definition js_store :: "jsarray \<Rightarrow> nat \<Rightarrow> real \<Rightarrow> jsarray" where
  "js_store a i v =
     (if i < length a then a[i := Some v]
      else a @ replicate (i - length a) None @ [Some v])"

text \<open>
  The object \<open>this.features_\<close> of the constructor, flattened: \<open>points_floats\<close> is
  \<open>features_.points.floats\<close>, and so on. The WebGL buffers and \<open>fill_transparency\<close>
  play no part in ingestion and are left out. \<open>updateScheduled\<close> records that
  \<open>scheduleUpdate()\<close> was called on the canvas layer.
\<close>

record layer =
  points_defaultColor :: color
  points_floats :: jsarray
  points_count :: nat
  points_changed :: bool
  polygons_floats :: jsarray
  polygons_count :: nat
  polygons_borderFloats :: jsarray
  polygons_borderCount :: nat
  polygons_borderCounts :: "nat list"
  polygons_changed :: bool
  updateScheduled :: bool

text \<open>The state the constructor \<open>WebGLLayer(map)\<close> leaves.\<close>

definition WebGLLayer :: layer where
  "WebGLLayer =
     \<lparr>points_defaultColor = (1, 0, 0),
      points_floats = [],
      points_count = 0,
      points_changed = False,
      polygons_floats = [],
      polygons_count = 0,
      polygons_borderFloats = [],
      polygons_borderCount = 0,
      polygons_borderCounts = [],
      polygons_changed = False,
      updateScheduled = False\<rparr>"

text \<open>\<open>WebGLLayer.prototype.scheduleUpdate\<close>\<close>

definition scheduleUpdate :: "layer \<Rightarrow> layer" where
  "scheduleUpdate s = s\<lparr>updateScheduled := True\<rparr>"

text \<open>\<open>WebGLLayer.prototype.setDefaultPointColor\<close>\<close>

definition setDefaultPointColor :: "color \<Rightarrow> layer \<Rightarrow> layer" where
  "setDefaultPointColor color s = s\<lparr>points_defaultColor := color\<rparr>"

text \<open>\<open>WebGLLayer.prototype.changePointColor\<close>\<close>

definition changePointColor :: "nat \<Rightarrow> color \<Rightarrow> layer \<Rightarrow> layer" where
  "changePointColor idx color s =
     (let s = s\<lparr>points_floats := js_store (points_floats s) (idx * 3 + 2) (packColor color)\<rparr>;
          s = s\<lparr>points_changed := True\<rparr>
      in scheduleUpdate s)"

text \<open>
  \<open>WebGLLayer.prototype.changePolyColor\<close>. The loop
  \<open>for (var i = idxStart; i <= idxEnd; i++)\<close> is \<open>changePolyColor_loop\<close>, on the array
  \<open>features_.polygons.floats\<close>.
\<close>

function changePolyColor_loop :: "nat \<Rightarrow> nat \<Rightarrow> color \<Rightarrow> jsarray \<Rightarrow> jsarray" where
  "changePolyColor_loop i idxEnd color floats =
     (if i \<le> idxEnd
      then changePolyColor_loop (i + 1) idxEnd color (js_store floats (i * 3 + 2) (packColor color))
      else floats)"
  by pat_completeness auto
termination
  by (relation "measure (\<lambda>(i, idxEnd, color, floats). idxEnd + 1 - i)") auto

definition changePolyColor :: "nat \<Rightarrow> nat \<Rightarrow> color \<Rightarrow> layer \<Rightarrow> layer" where
  "changePolyColor idxStart idxEnd color s =
     (let s = s\<lparr>polygons_floats := changePolyColor_loop idxStart idxEnd color (polygons_floats s)\<rparr>;
          s = s\<lparr>polygons_changed := True\<rparr>
      in scheduleUpdate s)"

section \<open>Ingestion\<close>

text \<open>
  A GeoJSON geometry, by its \<open>type\<close>: the coordinates of a point are one position, of a
  polygon a list of rings (contours), of a multi-polygon a list of polygons. Any other
  type is \<open>Unsupported\<close>. The property bag of a feature carries the three fields the
  layer writes; \<open>None\<close> is a field not yet written.
\<close>

type_synonym position = "real \<times> real"

datatype geometry =
    Point position
  | Polygon "position list list"
  | MultiPolygon "position list list list"
  | Unsupported string

record properties =
  index :: "nat option"
  indexStart :: "nat option"
  indexEnd :: "nat option"

record feature =
  geometry :: geometry
  properties :: properties

text \<open>A feature as it is parsed from a payload: no field of the layer written yet.\<close>

definition parsed :: "geometry \<Rightarrow> feature" where
  "parsed g = \<lparr>geometry = g, properties = \<lparr>index = None, indexStart = None, indexEnd = None\<rparr>\<rparr>"

text \<open>
  The tesselator is the library libtess.js, which is not part of this repository. It is
  a parameter of the model: a function from the contours of one polygon (the vertices
  passed to \<open>gluTessVertex\<close> between \<open>gluTessBeginPolygon\<close> and \<open>gluTessEndPolygon\<close>) to
  either \<open>Inl errno\<close>, when it calls the error callback with \<open>errno\<close>, or \<open>Inr vs\<close>, the
  vertices it passes to the vertex callback, in order. The layer registers the edge-flag
  callback, so that the library emits independent triangles: three calls of the vertex
  callback for each triangle.
\<close>

type_synonym tesselator = "(real \<times> real) list list \<Rightarrow> nat + (real \<times> real) list"

text \<open>
  \<open>WebGLLayer.errorCallback_\<close> throws; the exception carries the error number.
\<close>

datatype exn = TessError nat

text \<open>\<open>WebGLLayer.vertexCallback_\<close>\<close>

definition vertexCallback :: "real \<times> real \<Rightarrow> jsarray \<Rightarrow> jsarray" where
  "vertexCallback data polyVertArray =
     (let a = push polyVertArray (fst data);
          a = push a (snd data);
          a = push a (packColor (1, 0, 0))
      in a)"

text \<open>
  \<open>WebGLLayer.prototype.processPolygon\<close>. The callback of \<open>contour.map\<close> pushes three
  floats to \<open>borderPoints\<close> for each position (\<open>borderPoint\<close>); the fills are what the
  vertex callback collects in \<open>polyVerts\<close>. An exception of the error callback leaves
  \<open>processPolygon\<close> before line 498, the first line that writes to \<open>this.features_\<close>, so
  the result \<open>Inl\<close> is the exception with the layer as it was.
\<close>

definition borderPoint :: "jsarray \<Rightarrow> real \<times> real \<Rightarrow> jsarray" where
  "borderPoint borderPoints xy =
     (let a = push borderPoints (fst xy);
          a = push a (snd xy);
          a = push a (packColor (0, 0, 0))
      in a)"

definition processPolygon :: "tesselator \<Rightarrow> position list list \<Rightarrow> layer \<Rightarrow> exn + layer" where
  "processPolygon tess coordinates s =
     (let contours = map (map coordsToXY) coordinates;
          borderPoints = foldl borderPoint [] (concat contours)
      in case tess contours of
           Inl errno \<Rightarrow> Inl (TessError errno)
         | Inr emitted \<Rightarrow>
             let polyVerts = foldl (\<lambda>a data. vertexCallback data a) [] emitted;
                 s = s\<lparr>polygons_borderFloats := polygons_borderFloats s @ borderPoints\<rparr>;
                 s = s\<lparr>polygons_borderCount := polygons_borderCount s + length borderPoints div 3\<rparr>;
                 s = s\<lparr>polygons_floats := polygons_floats s @ polyVerts\<rparr>;
                 s = s\<lparr>polygons_count := polygons_count s + length polyVerts div 3\<rparr>
             in Inr s)"

text \<open>
  The loop over the parts of a multi-polygon (lines 455 to 459). The result is the
  exception, if one was thrown, and the layer as the loop left it: the parts before the
  failing one stay appended.
\<close>

fun processParts :: "tesselator \<Rightarrow> position list list list \<Rightarrow> layer \<Rightarrow> exn option \<times> layer" where
  "processParts tess [] s = (None, s)"
| "processParts tess (part # parts) s =
     (let borderCount = polygons_borderCount s
      in case processPolygon tess part s of
           Inl e \<Rightarrow> (Some e, s)
         | Inr s \<Rightarrow>
             processParts tess parts
               (s\<lparr>polygons_borderCounts :=
                    polygons_borderCounts s @ [polygons_borderCount s - borderCount]\<rparr>))"

text \<open>
  \<open>WebGLLayer.prototype.onAddFeature\<close>: the hook of the source has an empty body.
\<close>

definition onAddFeature :: "feature \<Rightarrow> layer \<Rightarrow> layer" where
  "onAddFeature feature s = s"

text \<open>
  One iteration of the loop of \<open>WebGLLayer.prototype.loadData\<close>: the \<open>switch\<close> on
  \<open>geometry.type\<close>. The feature is mutated in place, so the result holds the exception
  (if any), the layer and the feature as they are when the iteration ends or throws.
\<close>

definition loadFeature :: "tesselator \<Rightarrow> layer \<Rightarrow> feature \<Rightarrow> exn option \<times> layer \<times> feature" where
  "loadFeature tess s feature =
     (case geometry feature of
        Point coordinates \<Rightarrow>
          let xy = coordsToXY coordinates;
              s = s\<lparr>points_floats := push (points_floats s) (fst xy)\<rparr>;
              s = s\<lparr>points_floats := push (points_floats s) (snd xy)\<rparr>;
              s = s\<lparr>points_floats := push (points_floats s) (packColor (points_defaultColor s))\<rparr>;
              feature = feature\<lparr>properties := (properties feature)\<lparr>index := Some (points_count s)\<rparr>\<rparr>;
              s = s\<lparr>points_count := points_count s + 1\<rparr>;
              s = s\<lparr>points_changed := True\<rparr>
          in (None, onAddFeature feature s, feature)
      | Polygon coordinates \<Rightarrow>
          let feature = feature\<lparr>properties := (properties feature)\<lparr>indexStart := Some (polygons_count s)\<rparr>\<rparr>;
              borderCount = polygons_borderCount s
          in (case processPolygon tess coordinates s of
                Inl e \<Rightarrow> (Some e, s, feature)
              | Inr s \<Rightarrow>
                  let s = s\<lparr>polygons_borderCounts :=
                             polygons_borderCounts s @ [polygons_borderCount s - borderCount]\<rparr>;
                      feature = feature\<lparr>properties := (properties feature)\<lparr>indexEnd := Some (polygons_count s)\<rparr>\<rparr>;
                      s = s\<lparr>polygons_changed := True\<rparr>
                  in (None, onAddFeature feature s, feature))
      | MultiPolygon coordinates \<Rightarrow>
          let feature = feature\<lparr>properties := (properties feature)\<lparr>indexStart := Some (polygons_count s)\<rparr>\<rparr>
          in (case processParts tess coordinates s of
                (Some e, s) \<Rightarrow> (Some e, s, feature)
              | (None, s) \<Rightarrow>
                  let feature = feature\<lparr>properties := (properties feature)\<lparr>indexEnd := Some (polygons_count s)\<rparr>\<rparr>;
                      s = s\<lparr>polygons_changed := True\<rparr>
                  in (None, onAddFeature feature s, feature))
      | Unsupported t \<Rightarrow> (None, s, feature))"

text \<open>
  \<open>WebGLLayer.prototype.loadData\<close>: the loop over \<open>data.features\<close>, then
  \<open>scheduleUpdate()\<close>. An exception ends the loop; the features after the failing one
  are returned as they came, and no update is scheduled.
\<close>

fun loadData_loop :: "tesselator \<Rightarrow> layer \<Rightarrow> feature list \<Rightarrow> exn option \<times> layer \<times> feature list" where
  "loadData_loop tess s [] = (None, s, [])"
| "loadData_loop tess s (feature # features) =
     (case loadFeature tess s feature of
        (Some e, s, feature) \<Rightarrow> (Some e, s, feature # features)
      | (None, s, feature) \<Rightarrow>
          (case loadData_loop tess s features of
             (r, s, features) \<Rightarrow> (r, s, feature # features)))"

definition loadData :: "tesselator \<Rightarrow> layer \<Rightarrow> feature list \<Rightarrow> exn option \<times> layer \<times> feature list" where
  "loadData tess s features =
     (case loadData_loop tess s features of
        (Some e, s, features) \<Rightarrow> (Some e, s, features)
      | (None, s, features) \<Rightarrow> (None, scheduleUpdate s, features))"

text \<open>
  The states of a layer: the constructor's state, and every state that a call of
  \<open>loadData\<close> (with whatever the tesselator answers during that call, and whether or
  not it throws), \<open>changePointColor\<close>, \<open>changePolyColor\<close> or \<open>setDefaultPointColor\<close>
  leaves.
\<close>

inductive reachable :: "layer \<Rightarrow> bool" where
  constructed: "reachable WebGLLayer"
| loaded: "reachable s \<Longrightarrow> loadData tess s features = (r, s', features') \<Longrightarrow> reachable s'"
| pointColor: "reachable s \<Longrightarrow> reachable (changePointColor idx color s)"
| polyColor: "reachable s \<Longrightarrow> reachable (changePolyColor idxStart idxEnd color s)"
| defaultColor: "reachable s \<Longrightarrow> reachable (setDefaultPointColor color s)"

text \<open>
  The invariant of \<open>borderCounts\<close>: its entries add up to the number of border vertices,
  a third of the length of \<open>borderFloats\<close>.
\<close>

definition borderCounts_inv :: "layer \<Rightarrow> bool" where
  "borderCounts_inv s \<longleftrightarrow>
     real (sum_list (polygons_borderCounts s)) = real (length (polygons_borderFloats s)) / 3"

definition isPoint :: "feature \<Rightarrow> bool" where
  "isPoint feature = (case geometry feature of Point c \<Rightarrow> True | _ \<Rightarrow> False)"

subsection \<open>Two tesselators for concrete runs\<close>

text \<open>
  \<open>fan_tess\<close> answers with the triangle fan over the first contour: for a convex ring
  of \<open>n\<close> vertices the \<open>n - 2\<close> triangles \<open>(v0, vi, vi+1)\<close>, three vertices each.
  \<open>checked_tess\<close> first does what \<open>gluTessVertex\<close> of libtess does with a coordinate
  beyond \<open>GLU_TESS_MAX_COORD = 1e150\<close>: it reports \<open>GLU_TESS_COORD_TOO_LARGE\<close>, error
  number 100155.
\<close>

fun fan :: "real \<times> real \<Rightarrow> (real \<times> real) list \<Rightarrow> (real \<times> real) list" where
  "fan a (b # c # rest) = a # b # c # fan a (c # rest)"
| "fan a rest = []"

definition fan_tess :: tesselator where
  "fan_tess contours =
     (case contours of
        (a # rest) # others \<Rightarrow> Inr (fan a rest)
      | _ \<Rightarrow> Inr [])"

text \<open>A longitude that libtess refuses: \<open>1e151\<close>.\<close>

definition lng_too_large :: real where
  "lng_too_large = 10 ^ 151"

definition checked_tess :: tesselator where
  "checked_tess contours =
     (if list_ex (\<lambda>xy. \<bar>fst xy\<bar> > 10 ^ 150 \<or> \<bar>snd xy\<bar> > 10 ^ 150) (concat contours)
      then Inl 100155
      else fan_tess contours)"

section \<open>Projection\<close>

lemma lngToX_cont_below:
  assumes "x < 180"
  shows "isCont lngToX x"
proof -
  have ev: "eventually (\<lambda>y. y \<in> {..<180::real}) (nhds x)"
    using assms by (intro eventually_nhds_in_open) auto
  have "eventually (\<lambda>y. lngToX y = 256 * (y / 360 + 0.5)) (nhds x)"
    by (rule eventually_mono [OF ev]) (simp add: lngToX_def)
  then have "isCont lngToX x \<longleftrightarrow> isCont (\<lambda>y. 256 * (y / 360 + 0.5)) x"
    by (rule isCont_cong)
  then show ?thesis by simp
qed

lemma lngToX_cont_above:
  assumes "180 < x"
  shows "isCont lngToX x"
proof -
  have ev: "eventually (\<lambda>y. y \<in> {180::real<..}) (nhds x)"
    using assms by (intro eventually_nhds_in_open) auto
  have "eventually (\<lambda>y. lngToX y = 256 * (y / 360 - 0.5)) (nhds x)"
    by (rule eventually_mono [OF ev]) (simp add: lngToX_def)
  then have "isCont lngToX x \<longleftrightarrow> isCont (\<lambda>y. 256 * (y / 360 - 0.5)) x"
    by (rule isCont_cong)
  then show ?thesis by simp
qed

text \<open>
  At 180 the value is 256, while just to the right of 180 the values are close to 0.
\<close>

lemma lngToX_discont_180: "\<not> isCont lngToX 180"
proof
  assume cont: "isCont lngToX 180"
  obtain d where d: "d > 0" "\<And>y. \<bar>y - 180\<bar> < d \<Longrightarrow> \<bar>lngToX y - lngToX 180\<bar> < 1"
  proof -
    from cont have "\<exists>s>0. \<forall>x. x \<noteq> 180 \<and> \<bar>x - 180\<bar> < s \<longrightarrow> \<bar>lngToX x - lngToX 180\<bar> < 1"
      unfolding isCont_def LIM_eq real_norm_def by (metis zero_less_one)
    then obtain s where s: "s > 0"
      "\<forall>x. x \<noteq> 180 \<and> \<bar>x - 180\<bar> < s \<longrightarrow> \<bar>lngToX x - lngToX 180\<bar> < 1"
      by blast
    show thesis
    proof (rule that [OF s(1)])
      fix y :: real
      assume "\<bar>y - 180\<bar> < s"
      then show "\<bar>lngToX y - lngToX 180\<bar> < 1"
        using s(2) by (cases "y = 180") auto
    qed
  qed
  define y where "y = 180 + min (d / 2) 1"
  have y: "180 < y" "y \<le> 181" "\<bar>y - 180\<bar> < d"
    using d(1) by (auto simp: y_def min_def)
  have "lngToX y \<le> 1"
    using y(1,2) by (simp add: lngToX_def)
  moreover have "lngToX 180 = 256"
    by (simp add: lngToX_def)
  ultimately have "\<not> \<bar>lngToX y - lngToX 180\<bar> < 1"
    by simp
  with d(2) [OF y(3)] show False by simp
qed

text \<open>
  C9. \<open>lngToX(lng)\<close> is \<open>256 * (lng / 360 + 0.5)\<close> for \<open>lng \<le> 180\<close> and
  \<open>256 * (lng / 360 - 0.5)\<close> otherwise, and the only longitude at which it is not
  continuous is 180, the antimeridian.
\<close>

theorem lngToX_piecewise:
  "(lng \<le> 180 \<longrightarrow> lngToX lng = 256 * (lng / 360 + 0.5)) \<and>
   (\<not> lng \<le> 180 \<longrightarrow> lngToX lng = 256 * (lng / 360 - 0.5)) \<and>
   (isCont lngToX lng \<longleftrightarrow> lng \<noteq> 180)"
proof (intro conjI impI)
  assume "lng \<le> 180"
  then show "lngToX lng = 256 * (lng / 360 + 0.5)"
    by (simp add: lngToX_def)
next
  assume "\<not> lng \<le> 180"
  then show "lngToX lng = 256 * (lng / 360 - 0.5)"
    by (simp add: lngToX_def)
next
  show "isCont lngToX lng \<longleftrightarrow> lng \<noteq> 180"
  proof (cases lng "180 :: real" rule: linorder_cases)
    case less
    then show ?thesis using lngToX_cont_below by simp
  next
    case equal
    then show ?thesis using lngToX_discont_180 by simp
  next
    case greater
    then show ?thesis using lngToX_cont_above by simp
  qed
qed

theorem lngToX_piecewise_witness:
  "(180 :: real) \<le> 180 \<and> lngToX 180 = 256 \<and> \<not> isCont lngToX 180 \<and>
   \<not> (270 :: real) \<le> 180 \<and> lngToX 270 = 64 \<and> isCont lngToX 270"
  using lngToX_piecewise [of 180] lngToX_piecewise [of 270] by simp

section \<open>The colour codec\<close>

lemma quantize_range:
  fixes c :: real
  assumes "0 \<le> c" "c \<le> 1"
  shows "0 \<le> \<lfloor>c * 128 + 0.5\<rfloor> \<and> \<lfloor>c * 128 + 0.5\<rfloor> \<le> 128"
  using assms by (simp add: le_floor_iff floor_le_iff)

lemma packColor_grid:
  "packColor (real qr / 128, real qg / 128, real qb / 128) = real (qr + qb * 129 + qg * 129\<^sup>2)"
  by (simp add: packColor_def power2_eq_square)

lemma mixed_radix_digits:
  fixes qr qg qb :: nat
  assumes "qr \<le> 128" "qb \<le> 128"
  shows "(qr + qb * 129 + qg * 129\<^sup>2) mod 129 = qr"
    and "(qr + qb * 129 + qg * 129\<^sup>2) div 129 mod 129 = qb"
    and "(qr + qb * 129 + qg * 129\<^sup>2) div 129\<^sup>2 = qg"
proof -
  have e: "qr + qb * 129 + qg * 129\<^sup>2 = qr + 129 * (qb + 129 * qg)"
    by (simp add: power2_eq_square)
  have "(qr + 129 * (qb + 129 * qg)) mod 129 = qr mod 129"
    by (rule mod_mult_self2)
  then show "(qr + qb * 129 + qg * 129\<^sup>2) mod 129 = qr"
    unfolding e using assms(1) by simp
  have d: "(qr + 129 * (qb + 129 * qg)) div 129 = qb + 129 * qg"
    using assms(1) by simp
  have "(qb + 129 * qg) mod 129 = qb mod 129"
    by (rule mod_mult_self2)
  then show "(qr + qb * 129 + qg * 129\<^sup>2) div 129 mod 129 = qb"
    unfolding e d using assms(2) by simp
  have dq: "(qb + 129 * qg) div 129 = qg"
    using div_mult_self2 [of 129 qb qg] assms(2) by simp
  have "(qr + 129 * (qb + 129 * qg)) div (129 * 129) = (qb + 129 * qg) div 129"
    unfolding div_mult2_eq d ..
  also have "\<dots> = qg"
    by (rule dq)
  finally have "(qr + 129 * (qb + 129 * qg)) div (129 * 129) = qg" .
  moreover have "qr + qb * 129 + qg * (129 * 129) = qr + 129 * (qb + 129 * qg)"
    by simp
  ultimately show "(qr + qb * 129 + qg * 129\<^sup>2) div 129\<^sup>2 = qg"
    by (simp only: power2_eq_square)
qed

lemma float2color_of_nat:
  "float2color (real n) =
     (real (n mod 129) / 128, real (n div 129\<^sup>2) / 128, real (n div 129 mod 129) / 128)"
proof -
  have f1: "\<lfloor>real n / 129\<rfloor> = int (n div 129)"
    using floor_divide_of_nat_eq [of n 129, where ?'a = real] by simp
  have f2: "\<lfloor>real n / 16641\<rfloor> = int (n div 16641)"
    using floor_divide_of_nat_eq [of n 16641, where ?'a = real] by simp
  have m: "real k - 129 * real (k div 129) = real (k mod 129)" for k :: nat
  proof -
    have "real k = real (129 * (k div 129) + k mod 129)"
      by simp
    then show ?thesis
      by (simp only: of_nat_add of_nat_mult of_nat_numeral)
  qed
  have g1: "glsl_mod (real n) 129 = real (n mod 129)"
    using m [of n] by (simp add: glsl_mod_def f1)
  have f3: "\<lfloor>real (n div 129) / 129\<rfloor> = int (n div 129 div 129)"
    using floor_divide_of_nat_eq [of "n div 129" 129, where ?'a = real] by simp
  have g2: "glsl_mod (real (n div 129)) 129 = real (n div 129 mod 129)"
    using m [of "n div 129"] by (simp add: glsl_mod_def f3)
  show ?thesis
    by (simp add: float2color_def Let_def f1 f2 g1 g2)
qed

text \<open>
  C4. \<open>packColor\<close> quantizes each channel as \<open>round(c * 128)\<close> and combines the three as
  \<open>qr + qb * 129 + qg * 129\<^sup>2\<close>. On the grid of the \<open>129\<^sup>3\<close> colours
  \<open>(qr / 128, qg / 128, qb / 128)\<close> with \<open>qr, qg, qb \<le> 128\<close>, the packed number is
  \<open>qr + qb * 129 + qg * 129\<^sup>2\<close>, its base-129 digits are \<open>qr\<close>, \<open>qb\<close> and \<open>qg\<close>, the
  shader's \<open>float2color\<close> gives the colour back, and two grid colours with the same
  packed number are the same colour.
\<close>

theorem packColor_mixed_radix:
  fixes qr qg qb qr' qg' qb' :: nat
  assumes "qr \<le> 128" "qg \<le> 128" "qb \<le> 128"
  shows "packColor (r, g, b) =
           of_int (round (r * 128) + round (b * 128) * 129 + round (g * 128) * 129\<^sup>2) \<and>
         packColor (real qr / 128, real qg / 128, real qb / 128) =
           real (qr + qb * 129 + qg * 129\<^sup>2) \<and>
         nat \<lfloor>packColor (real qr / 128, real qg / 128, real qb / 128)\<rfloor> mod 129 = qr \<and>
         nat \<lfloor>packColor (real qr / 128, real qg / 128, real qb / 128)\<rfloor> div 129 mod 129 = qb \<and>
         nat \<lfloor>packColor (real qr / 128, real qg / 128, real qb / 128)\<rfloor> div 129\<^sup>2 = qg \<and>
         float2color (packColor (real qr / 128, real qg / 128, real qb / 128)) =
           (real qr / 128, real qg / 128, real qb / 128) \<and>
         (qr' \<le> 128 \<and> qg' \<le> 128 \<and> qb' \<le> 128 \<and>
          packColor (real qr' / 128, real qg' / 128, real qb' / 128) =
            packColor (real qr / 128, real qg / 128, real qb / 128)
          \<longrightarrow> qr' = qr \<and> qg' = qg \<and> qb' = qb)"
proof -
  let ?n = "qr + qb * 129 + qg * 129\<^sup>2"
  have p: "packColor (real qr / 128, real qg / 128, real qb / 128) = real ?n"
    by (rule packColor_grid)
  have fl: "nat \<lfloor>real ?n\<rfloor> = ?n"
    by (simp only: floor_of_nat nat_int)
  note dg = mixed_radix_digits [OF assms(1) assms(3), of qg]
  have general: "packColor (r, g, b) =
      of_int (round (r * 128) + round (b * 128) * 129 + round (g * 128) * 129\<^sup>2)"
    by (simp add: packColor_def round_def power2_eq_square)
  have decoded: "float2color (packColor (real qr / 128, real qg / 128, real qb / 128)) =
      (real qr / 128, real qg / 128, real qb / 128)"
    unfolding p float2color_of_nat dg ..
  have d1: "nat \<lfloor>packColor (real qr / 128, real qg / 128, real qb / 128)\<rfloor> mod 129 = qr"
    unfolding p fl by (rule dg(1))
  have d2: "nat \<lfloor>packColor (real qr / 128, real qg / 128, real qb / 128)\<rfloor> div 129 mod 129 = qb"
    unfolding p fl by (rule dg(2))
  have d3: "nat \<lfloor>packColor (real qr / 128, real qg / 128, real qb / 128)\<rfloor> div 129\<^sup>2 = qg"
    unfolding p fl by (rule dg(3))
  have inj: "qr' = qr \<and> qg' = qg \<and> qb' = qb"
    if le: "qr' \<le> 128" "qg' \<le> 128" "qb' \<le> 128"
      and eq: "packColor (real qr' / 128, real qg' / 128, real qb' / 128) =
               packColor (real qr / 128, real qg / 128, real qb / 128)"
  proof -
    let ?n' = "qr' + qb' * 129 + qg' * 129\<^sup>2"
    have "real ?n' = real ?n"
      using eq unfolding packColor_grid .
    then have n: "?n' = ?n"
      by (simp only: of_nat_eq_iff)
    note dg' = mixed_radix_digits [OF le(1) le(3), of qg']
    show ?thesis
      using dg dg' unfolding n by simp
  qed
  show ?thesis
    using general p d1 d2 d3 decoded inj by blast
qed

theorem packColor_mixed_radix_witness:
  "(128 :: nat) \<le> 128 \<and> (0 :: nat) \<le> 128 \<and> (64 :: nat) \<le> 128 \<and>
   packColor (1, 0, 1 / 2) = 8384 \<and>
   float2color (packColor (1, 0, 1 / 2)) = (1, 0, 1 / 2)"
  using packColor_mixed_radix [of 128 0 64 0 0 0 128 0 64] by auto

text \<open>
  C10. For channels in \<open>[0, 1]\<close> the packed colour is a natural number of at most
  \<open>129\<^sup>3 - 1 = 2146688\<close>, which is below \<open>2\<^sup>2\<^sup>4\<close>: it fits the 24-bit significand of
  a single-precision float.
\<close>

theorem packColor_range:
  assumes "0 \<le> r" "r \<le> 1" "0 \<le> g" "g \<le> 1" "0 \<le> b" "b \<le> 1"
  shows "0 \<le> packColor (r, g, b) \<and> packColor (r, g, b) \<le> 129 ^ 3 - 1 \<and>
         (129 ^ 3 - 1 :: real) = 2146688 \<and> (2146688 :: nat) < 2 ^ 24 \<and>
         (\<exists>m :: nat. m \<le> 2146688 \<and> m < 2 ^ 24 \<and> packColor (r, g, b) = real m)"
proof -
  define qr qg qb where "qr = \<lfloor>r * 128 + 0.5\<rfloor>" and "qg = \<lfloor>g * 128 + 0.5\<rfloor>"
    and "qb = \<lfloor>b * 128 + 0.5\<rfloor>"
  have q: "0 \<le> qr" "qr \<le> 128" "0 \<le> qg" "qg \<le> 128" "0 \<le> qb" "qb \<le> 128"
    using quantize_range assms by (simp_all add: qr_def qg_def qb_def)
  define n where "n = qr + qb * 129 + qg * 129 * 129"
  have p: "packColor (r, g, b) = of_int n"
    by (simp add: packColor_def qr_def qg_def qb_def n_def)
  have n: "0 \<le> n" "n \<le> 2146688"
    using q unfolding n_def by linarith+
  have pm: "packColor (r, g, b) = real (nat n)"
    using n(1) by (simp add: p)
  have m: "nat n \<le> 2146688"
    using n by linarith
  have "0 \<le> packColor (r, g, b)"
    unfolding pm by simp
  moreover have "packColor (r, g, b) \<le> 129 ^ 3 - 1"
    unfolding pm using m by simp
  moreover have "\<exists>m :: nat. m \<le> 2146688 \<and> m < 2 ^ 24 \<and> packColor (r, g, b) = real m"
    using pm m by (intro exI [of _ "nat n"]) simp
  ultimately show ?thesis
    by simp
qed

theorem packColor_range_witness:
  "(0 :: real) \<le> 1 \<and> (0 :: real) \<le> 3 / 10 \<and> (3 / 10 :: real) \<le> 1 \<and>
   packColor (1, 3 / 10, 1) = 648998 \<and> packColor (1, 3 / 10, 1) \<le> 129 ^ 3 - 1"
  using packColor_range [of 1 "3 / 10" 1] by (simp add: packColor_def)

section \<open>The view transform, computed\<close>

lemma list16:
  assumes "length (m :: real list) = 16"
  obtains a0 a1 a2 a3 a4 a5 a6 a7 a8 a9 a10 a11 a12 a13 a14 a15
  where "m = [a0, a1, a2, a3, a4, a5, a6, a7, a8, a9, a10, a11, a12, a13, a14, a15]"
  using assms by (auto simp: eval_nat_numeral length_Suc_conv)

lemma scaleMatrix_explicit:
  "scaleMatrix [a0, a1, a2, a3, a4, a5, a6, a7, a8, a9, a10, a11, a12, a13, a14, a15] sx sy
   = [a0 * sx, a1 * sx, a2 * sx, a3 * sx, a4 * sy, a5 * sy, a6 * sy, a7 * sy,
      a8, a9, a10, a11, a12, a13, a14, a15]"
  by (simp add: scaleMatrix_def)

lemma translateMatrix_explicit:
  "translateMatrix [a0, a1, a2, a3, a4, a5, a6, a7, a8, a9, a10, a11, a12, a13, a14, a15] tx ty
   = [a0, a1, a2, a3, a4, a5, a6, a7, a8, a9, a10, a11,
      a12 + (a0 * tx + a4 * ty), a13 + (a1 * tx + a5 * ty),
      a14 + (a2 * tx + a6 * ty), a15 + (a3 * tx + a7 * ty)]"
  by (simp add: translateMatrix_def)

lemma update_mapMatrix_explicit:
  "update_mapMatrix [a0, a1, a2, a3, a4, a5, a6, a7, a8, a9, a10, a11, a12, a13, a14, a15] z (ox, oy)
   = [a0 * 2 powr z, a1 * 2 powr z, a2 * 2 powr z, a3 * 2 powr z,
      a4 * 2 powr z, a5 * 2 powr z, a6 * 2 powr z, a7 * 2 powr z,
      a8, a9, a10, a11,
      a12 + (a0 * 2 powr z * - ox + a4 * 2 powr z * - oy),
      a13 + (a1 * 2 powr z * - ox + a5 * 2 powr z * - oy),
      a14 + (a2 * 2 powr z * - ox + a6 * 2 powr z * - oy),
      a15 + (a3 * 2 powr z * - ox + a7 * 2 powr z * - oy)]"
  by (simp add: update_mapMatrix_def Let_def scaleMatrix_explicit translateMatrix_explicit)

lemma less16_cases:
  assumes "i < (16 :: nat)"
  obtains "i = 0" | "i = 1" | "i = 2" | "i = 3" | "i = 4" | "i = 5" | "i = 6" | "i = 7"
    | "i = 8" | "i = 9" | "i = 10" | "i = 11" | "i = 12" | "i = 13" | "i = 14" | "i = 15"
  using assms by atomize_elim presburger

text \<open>
  C8. The matrix of a frame is the base matrix, scaled by \<open>2\<^sup>z\<^sup>o\<^sup>o\<^sup>m\<close> in its x and y
  columns (entries 0 to 7), then translated by the negated offset in the scaled basis
  (entries 12 to 15); entries 8 to 11 stay. At zoom 0 with offset \<open>(0, 0)\<close> it is the
  base matrix, and one more level of zoom doubles the scaled columns and the
  translation the offset contributes.
\<close>

theorem update_mapMatrix_scale_translate:
  assumes "length base = 16"
  shows "update_mapMatrix base zoom (ox, oy) =
           translateMatrix (scaleMatrix base (2 powr zoom) (2 powr zoom)) (- ox) (- oy) \<and>
         length (update_mapMatrix base zoom (ox, oy)) = 16 \<and>
         (\<forall>i<16. update_mapMatrix base zoom (ox, oy) ! i =
            (if i < 8 then 2 powr zoom * base ! i
             else if i < 12 then base ! i
             else base ! i
                  + ((2 powr zoom * base ! (i - 12)) * (- ox)
                     + (2 powr zoom * base ! (i - 8)) * (- oy)))) \<and>
         update_mapMatrix base 0 (0, 0) = base \<and>
         (\<forall>i<8. update_mapMatrix base (zoom + 1) (ox, oy) ! i =
            2 * update_mapMatrix base zoom (ox, oy) ! i) \<and>
         (\<forall>i<16. 12 \<le> i \<longrightarrow>
            update_mapMatrix base (zoom + 1) (ox, oy) ! i - base ! i =
            2 * (update_mapMatrix base zoom (ox, oy) ! i - base ! i))"
proof -
  from assms obtain a0 a1 a2 a3 a4 a5 a6 a7 a8 a9 a10 a11 a12 a13 a14 a15
    where b: "base = [a0, a1, a2, a3, a4, a5, a6, a7, a8, a9, a10, a11, a12, a13, a14, a15]"
    by (rule list16)
  have p: "2 powr (zoom + 1) = 2 * 2 powr zoom"
    by (simp add: powr_add)
  have c1: "update_mapMatrix base zoom (ox, oy) =
           translateMatrix (scaleMatrix base (2 powr zoom) (2 powr zoom)) (- ox) (- oy)"
    by (simp add: update_mapMatrix_def Let_def)
  have c2: "length (update_mapMatrix base zoom (ox, oy)) = 16"
    unfolding b update_mapMatrix_explicit by simp
  have c3: "update_mapMatrix base zoom (ox, oy) ! i =
            (if i < 8 then 2 powr zoom * base ! i
             else if i < 12 then base ! i
             else base ! i
                  + ((2 powr zoom * base ! (i - 12)) * (- ox)
                     + (2 powr zoom * base ! (i - 8)) * (- oy)))" if "i < 16" for i
    using that unfolding b update_mapMatrix_explicit
    by (cases i rule: less16_cases) simp_all
  have c4: "update_mapMatrix base 0 (0, 0) = base"
    unfolding b update_mapMatrix_explicit by simp
  have c5: "update_mapMatrix base (zoom + 1) (ox, oy) ! i =
            2 * update_mapMatrix base zoom (ox, oy) ! i" if "i < 8" for i
  proof -
    from that have "i < 16" by simp
    then show ?thesis
      using that unfolding b update_mapMatrix_explicit p
      by (cases i rule: less16_cases) simp_all
  qed
  have c6: "update_mapMatrix base (zoom + 1) (ox, oy) ! i - base ! i =
            2 * (update_mapMatrix base zoom (ox, oy) ! i - base ! i)"
    if "i < 16" "12 \<le> i" for i
    using that unfolding b update_mapMatrix_explicit p
    by (cases i rule: less16_cases) simp_all
  show ?thesis
    using c1 c2 c3 c4 c5 c6 by blast
qed

theorem update_mapMatrix_scale_translate_witness:
  "length (resize 1 512 256) = 16 \<and>
   update_mapMatrix (resize 1 512 256) 0 (0, 0) = resize 1 512 256 \<and>
   update_mapMatrix (resize 1 512 256) 3 (10, 20) ! 0 = 8 * (1 / 256) \<and>
   update_mapMatrix (resize 1 512 256) 4 (10, 20) ! 0 =
     2 * update_mapMatrix (resize 1 512 256) 3 (10, 20) ! 0"
proof -
  have l: "length (resize 1 512 256) = 16"
    by (simp add: resize_def)
  note t = update_mapMatrix_scale_translate [OF l, of 3 10 20]
  have a: "update_mapMatrix (resize 1 512 256) 0 (0, 0) = resize 1 512 256"
    using t by blast
  from t have "\<forall>i<16. update_mapMatrix (resize 1 512 256) 3 (10, 20) ! i =
            (if i < 8 then 2 powr 3 * resize 1 512 256 ! i
             else if i < 12 then resize 1 512 256 ! i
             else resize 1 512 256 ! i
                  + ((2 powr 3 * resize 1 512 256 ! (i - 12)) * (- 10)
                     + (2 powr 3 * resize 1 512 256 ! (i - 8)) * (- 20)))"
    by blast
  from this [rule_format, of 0]
  have b: "update_mapMatrix (resize 1 512 256) 3 (10, 20) ! 0 = 8 * (1 / 256)"
    by (simp add: resize_def)
  from t have "\<forall>i<8. update_mapMatrix (resize 1 512 256) (3 + 1) (10, 20) ! i =
            2 * update_mapMatrix (resize 1 512 256) 3 (10, 20) ! i"
    by blast
  from this [rule_format, of 0]
  have c: "update_mapMatrix (resize 1 512 256) 4 (10, 20) ! 0 =
     2 * update_mapMatrix (resize 1 512 256) 3 (10, 20) ! 0"
    by simp
  show ?thesis
    using l a b c by blast
qed

section \<open>Ingestion, step by step\<close>

lemma length_foldl_borderPoint:
  "length (foldl borderPoint a xs) = length a + 3 * length xs"
  by (induction xs arbitrary: a) (simp_all add: borderPoint_def push_def)

lemma length_foldl_vertexCallback:
  "length (foldl (\<lambda>a data. vertexCallback data a) a vs) = length a + 3 * length vs"
  by (induction vs arbitrary: a) (simp_all add: vertexCallback_def push_def)

lemma processPolygon_Inl:
  "tess (map (map coordsToXY) cs) = Inl errno \<Longrightarrow>
   processPolygon tess cs s = Inl (TessError errno)"
  by (simp add: processPolygon_def)

text \<open>
  The lengths of \<open>borderPoints\<close> and \<open>polyVerts\<close> are multiples of 3, so the divisions by
  3 of \<open>processPolygon\<close> are exact: the counts grow by the number of ring vertices and by
  the number of vertices the tesselator emitted.
\<close>

lemma processPolygon_Inr:
  "tess (map (map coordsToXY) cs) = Inr vs \<Longrightarrow>
   processPolygon tess cs s =
     Inr (s\<lparr>polygons_borderFloats :=
              polygons_borderFloats s @ foldl borderPoint [] (concat (map (map coordsToXY) cs)),
            polygons_borderCount := polygons_borderCount s + length (concat cs),
            polygons_floats :=
              polygons_floats s @ foldl (\<lambda>a data. vertexCallback data a) [] vs,
            polygons_count := polygons_count s + length vs\<rparr>)"
  by (simp add: processPolygon_def Let_def length_foldl_borderPoint length_foldl_vertexCallback
      length_concat comp_def)

lemma processPolygon_cases:
  obtains (thrown) errno where "tess (map (map coordsToXY) cs) = Inl errno"
      "processPolygon tess cs s = Inl (TessError errno)"
  | (appended) vs s1 where "tess (map (map coordsToXY) cs) = Inr vs"
      "processPolygon tess cs s = Inr s1"
      "polygons_borderCounts s1 = polygons_borderCounts s"
      "polygons_borderCount s1 = polygons_borderCount s + length (concat cs)"
      "length (polygons_borderFloats s1) = length (polygons_borderFloats s) + 3 * length (concat cs)"
      "points_count s1 = points_count s"
proof (cases "tess (map (map coordsToXY) cs)")
  case (Inl errno)
  then show ?thesis
    using thrown processPolygon_Inl by blast
next
  case (Inr vs)
  show ?thesis
    by (rule appended [OF Inr processPolygon_Inr [where tess = tess, OF Inr]])
      (simp_all add: length_foldl_borderPoint length_concat comp_def)
qed

lemma processParts_ok:
  assumes "\<forall>part \<in> set parts. \<not> isl (tess (map (map coordsToXY) part))"
  shows "\<exists>s'. processParts tess parts s = (None, s') \<and>
           polygons_borderCounts s' =
             polygons_borderCounts s @ map (\<lambda>part. length (concat part)) parts \<and>
           polygons_count s \<le> polygons_count s' \<and>
           take (length (polygons_floats s)) (polygons_floats s') = polygons_floats s \<and>
           length (polygons_floats s') + 3 * polygons_count s =
             length (polygons_floats s) + 3 * polygons_count s'"
  using assms
proof (induction parts arbitrary: s)
  case Nil
  then show ?case by simp
next
  case (Cons part parts)
  from Cons.prems obtain vs where vs: "tess (map (map coordsToXY) part) = Inr vs"
    by (cases "tess (map (map coordsToXY) part)") auto
  have rest: "\<forall>part \<in> set parts. \<not> isl (tess (map (map coordsToXY) part))"
    using Cons.prems by simp
  define s1 where "s1 =
     s\<lparr>polygons_borderFloats :=
              polygons_borderFloats s @ foldl borderPoint [] (concat (map (map coordsToXY) part)),
       polygons_borderCount := polygons_borderCount s + length (concat part),
       polygons_floats := polygons_floats s @ foldl (\<lambda>a data. vertexCallback data a) [] vs,
       polygons_count := polygons_count s + length vs,
       polygons_borderCounts := polygons_borderCounts s @ [length (concat part)]\<rparr>"
  have step: "processParts tess (part # parts) s = processParts tess parts s1"
    by (simp add: processPolygon_Inr [where tess = tess, OF vs] s1_def)
  from Cons.IH [OF rest, of s1] obtain s' where s':
    "processParts tess parts s1 = (None, s')"
    "polygons_borderCounts s' = polygons_borderCounts s1 @ map (\<lambda>part. length (concat part)) parts"
    "polygons_count s1 \<le> polygons_count s'"
    "take (length (polygons_floats s1)) (polygons_floats s') = polygons_floats s1"
    "length (polygons_floats s') + 3 * polygons_count s1 =
       length (polygons_floats s1) + 3 * polygons_count s'"
    by blast
  have pre: "take (length (polygons_floats s)) (polygons_floats s') = polygons_floats s"
  proof -
    have "take (length (polygons_floats s)) (polygons_floats s')
        = take (length (polygons_floats s)) (take (length (polygons_floats s1)) (polygons_floats s'))"
      by (simp add: s1_def min_def)
    also have "\<dots> = take (length (polygons_floats s)) (polygons_floats s1)"
      by (simp only: s'(4))
    also have "\<dots> = polygons_floats s"
      by (simp add: s1_def)
    finally show ?thesis .
  qed
  have "polygons_borderCounts s' =
          polygons_borderCounts s @ map (\<lambda>part. length (concat part)) (part # parts)"
    using s'(2) by (simp add: s1_def)
  moreover have "polygons_count s \<le> polygons_count s'"
    using s'(3) by (simp add: s1_def)
  moreover have "length (polygons_floats s') + 3 * polygons_count s =
      length (polygons_floats s) + 3 * polygons_count s'"
    using s'(5) by (simp add: s1_def length_foldl_vertexCallback)
  ultimately show ?case
    using step s'(1) pre by simp
qed

text \<open>
  C2, as the code has it. For a Polygon feature with one ring of \<open>N\<close> positions and no
  holes, whose tesselation succeeds with the vertices \<open>vs\<close>, ingestion appends the one
  entry \<open>N\<close> to \<open>borderCounts\<close> and stamps \<open>indexStart\<close> with the fill count before and
  \<open>indexEnd\<close> with the fill count after. The fill count is a count of vertices:
  \<open>indexEnd - indexStart\<close> is the number of vertices emitted, three for each triangle.
\<close>

theorem polygon_ingestion:
  assumes "geometry feature = Polygon [ring]"
      and "tess [map coordsToXY ring] = Inr vs"
  shows "case loadFeature tess s feature of (r, s', feature') \<Rightarrow>
           r = None \<and>
           polygons_borderCounts s' = polygons_borderCounts s @ [length ring] \<and>
           indexStart (properties feature') = Some (polygons_count s) \<and>
           indexEnd (properties feature') = Some (polygons_count s') \<and>
           polygons_count s' = polygons_count s + length vs \<and>
           (\<forall>triangles. length vs = 3 * triangles \<longrightarrow>
              the (indexEnd (properties feature')) - the (indexStart (properties feature'))
                = 3 * triangles) \<and>
           polygons_changed s'"
proof -
  have t: "tess (map (map coordsToXY) [ring]) = Inr vs"
    using assms(2) by simp
  show ?thesis
    by (simp add: loadFeature_def assms(1) processPolygon_Inr [where tess = tess, OF t]
        onAddFeature_def Let_def)
qed

theorem polygon_ingestion_witness:
  "fan_tess [map coordsToXY [(0, 0), (10, 0), (10, 10), (0, 10)]] =
     Inr [coordsToXY (0, 0), coordsToXY (10, 0), coordsToXY (10, 10),
          coordsToXY (0, 0), coordsToXY (10, 10), coordsToXY (0, 10)] \<and>
   (case loadFeature fan_tess WebGLLayer
           (parsed (Polygon [[(0, 0), (10, 0), (10, 10), (0, 10)]]))
    of (r, s', feature') \<Rightarrow>
      r = None \<and> polygons_borderCounts s' = [4] \<and>
      indexStart (properties feature') = Some 0 \<and>
      indexEnd (properties feature') = Some 6 \<and>
      the (indexEnd (properties feature')) - the (indexStart (properties feature')) = 3 * 2)"
proof -
  have t: "fan_tess [map coordsToXY [(0, 0), (10, 0), (10, 10), (0, 10)]] =
     Inr [coordsToXY (0, 0), coordsToXY (10, 0), coordsToXY (10, 10),
          coordsToXY (0, 0), coordsToXY (10, 10), coordsToXY (0, 10)]"
    by (simp add: fan_tess_def)
  have g: "geometry (parsed (Polygon [[(0, 0), (10, 0), (10, 10), (0, 10)]]))
     = Polygon [[(0, 0), (10, 0), (10, 10), (0, 10)]]"
    by (simp add: parsed_def)
  show ?thesis
    using polygon_ingestion [where tess = fan_tess and s = WebGLLayer, OF g t] t
    by (auto simp: WebGLLayer_def split: prod.splits)
qed

text \<open>
  The triangle \<open>(0, 0), (10, 0), (0, 10)\<close> has \<open>N = 3\<close> vertices and is tesselated into
  \<open>N - 2 = 1\<close> triangle, yet \<open>indexEnd - indexStart\<close> is 3.
\<close>

theorem polygon_index_range_counterexample:
  "fan_tess [map coordsToXY [(0, 0), (10, 0), (0, 10)]] =
     Inr [coordsToXY (0, 0), coordsToXY (10, 0), coordsToXY (0, 10)] \<and>
   (case loadFeature fan_tess WebGLLayer
           (parsed (Polygon [[(0, 0), (10, 0), (0, 10)]]))
    of (r, s', feature') \<Rightarrow>
      r = None \<and>
      indexStart (properties feature') = Some 0 \<and>
      indexEnd (properties feature') = Some 3 \<and>
      the (indexEnd (properties feature')) - the (indexStart (properties feature'))
        \<noteq> length [(0, 0), (10, 0), (0, 10 :: real)] - 2 \<and>
      the (indexEnd (properties feature')) - the (indexStart (properties feature'))
        \<noteq> length (projr (fan_tess [map coordsToXY [(0, 0), (10, 0), (0, 10)]])) div 3)"
  by (simp add: loadFeature_def processPolygon_def fan_tess_def WebGLLayer_def Let_def
      onAddFeature_def vertexCallback_def borderPoint_def push_def parsed_def)

section \<open>A tesselation error\<close>

lemma latToY_0: "latToY 0 = 128"
  by (simp add: latToY_def tan_45)

lemma latToY_30: "0 \<le> latToY 30 \<and> latToY 30 \<le> 128"
proof -
  have a: "(0.25 + 30 / 360) * pi = pi / 3"
    by simp
  have l: "latToY 30 = 128 * (1 - ln (sqrt 3) / pi)"
    by (simp add: latToY_def tan_60 del: ln_sqrt)
  have "0 \<le> ln (sqrt 3)"
    by simp
  moreover have "ln (sqrt 3) \<le> sqrt 3 - 1"
    by (rule ln_le_minus_one) simp
  moreover have "sqrt 3 \<le> 3"
    using real_sqrt_le_mono [of 3 9] by simp
  ultimately have b: "0 \<le> ln (sqrt 3)" "ln (sqrt 3) \<le> pi"
    using pi_ge_two by linarith+
  define q where "q = ln (sqrt 3) / pi"
  have q: "0 \<le> q" "q \<le> 1"
    using b pi_gt_zero by (simp_all add: q_def)
  have "latToY 30 = 128 * (1 - q)"
    unfolding l q_def ..
  then show ?thesis
    using q by simp
qed

lemma checked_tess_good:
  "checked_tess [map coordsToXY [(0, 0), (10, 0), (0, 30)]] =
     Inr [coordsToXY (0, 0), coordsToXY (10, 0), coordsToXY (0, 30)]"
proof -
  have "\<not> 10 ^ 150 < \<bar>latToY 30\<bar>"
    using latToY_30 by simp
  then show ?thesis
    by (simp add: checked_tess_def fan_tess_def coordsToXY_def latToY_0 lngToX_def)
qed

lemma checked_tess_bad:
  "checked_tess [map coordsToXY [(lng_too_large, 0), (10, 0), (0, 30)]] = Inl 100155"
  by (simp add: checked_tess_def coordsToXY_def lngToX_def lng_too_large_def)

lemma loadData_loop_append:
  "loadData_loop tess s before = (None, s1, before') \<Longrightarrow>
   loadData_loop tess s (before @ features) =
     (case loadData_loop tess s1 features of (r, s2, features') \<Rightarrow> (r, s2, before' @ features'))"
proof (induction before arbitrary: s before')
  case Nil
  then show ?case by (simp split: prod.splits)
next
  case (Cons f before)
  obtain r0 s0 f0 where f: "loadFeature tess s f = (r0, s0, f0)"
    by (cases "loadFeature tess s f")
  obtain r2 s2 fs2 where l: "loadData_loop tess s0 before = (r2, s2, fs2)"
    by (cases "loadData_loop tess s0 before")
  from Cons.prems f l have r: "r0 = None" "r2 = None" "s2 = s1" "before' = f0 # fs2"
    by (auto split: option.splits)
  from Cons.IH [of s0 fs2] l r have
    "loadData_loop tess s0 (before @ features) =
     (case loadData_loop tess s1 features of (r, s2, features') \<Rightarrow> (r, s2, fs2 @ features'))"
    by simp
  then show ?case
    using f r by (simp split: prod.splits)
qed

lemma processParts_append:
  "processParts tess ok s = (None, s2) \<Longrightarrow>
   processParts tess (ok @ parts) s = processParts tess parts s2"
proof (induction ok arbitrary: s)
  case Nil
  then show ?case by simp
next
  case (Cons part ok)
  then show ?case
    by (cases "processPolygon tess part s") (simp_all add: Let_def)
qed

text \<open>
  C1, as the code has it. \<open>loadData\<close> has no handler around a feature: when the
  tesselator reports an error for a Polygon feature, or for a part of a MultiPolygon
  feature, the exception leaves \<open>loadData\<close>. The features before the failing one stay
  ingested (\<open>s1\<close>), the failing polygon appends nothing (of a multi-polygon, the parts
  before the failing one stay appended, \<open>s2\<close>), the failing feature keeps the
  \<open>indexStart\<close> it was given, and the remaining features are not touched.
\<close>

theorem tesselation_error_aborts_load:
  assumes "loadData_loop tess s before = (None, s1, before')"
      and "tess (map (map coordsToXY) bad) = Inl errno"
  shows "(geometry feature = Polygon bad \<longrightarrow>
            loadData tess s (before @ feature # rest) =
              (Some (TessError errno), s1,
               before' @ feature\<lparr>properties :=
                   (properties feature)\<lparr>indexStart := Some (polygons_count s1)\<rparr>\<rparr> # rest)) \<and>
         (geometry feature = MultiPolygon (ok @ bad # others) \<and>
          processParts tess ok s1 = (None, s2) \<longrightarrow>
            loadData tess s (before @ feature # rest) =
              (Some (TessError errno), s2,
               before' @ feature\<lparr>properties :=
                   (properties feature)\<lparr>indexStart := Some (polygons_count s1)\<rparr>\<rparr> # rest))"
proof (intro conjI impI)
  note p = processPolygon_Inl [where tess = tess, OF assms(2)]
  {
    assume g: "geometry feature = Polygon bad"
    have "loadFeature tess s1 feature =
        (Some (TessError errno), s1,
         feature\<lparr>properties := (properties feature)\<lparr>indexStart := Some (polygons_count s1)\<rparr>\<rparr>)"
      by (simp add: loadFeature_def g p Let_def)
    then show "loadData tess s (before @ feature # rest) =
              (Some (TessError errno), s1,
               before' @ feature\<lparr>properties :=
                   (properties feature)\<lparr>indexStart := Some (polygons_count s1)\<rparr>\<rparr> # rest)"
      by (simp add: loadData_def loadData_loop_append [OF assms(1)])
  next
    assume "geometry feature = MultiPolygon (ok @ bad # others) \<and>
          processParts tess ok s1 = (None, s2)"
    then have g: "geometry feature = MultiPolygon (ok @ bad # others)"
      and ok: "processParts tess ok s1 = (None, s2)"
      by simp_all
    have "processParts tess (ok @ bad # others) s1 = (Some (TessError errno), s2)"
      by (simp add: processParts_append [OF ok] p)
    then have "loadFeature tess s1 feature =
        (Some (TessError errno), s2,
         feature\<lparr>properties := (properties feature)\<lparr>indexStart := Some (polygons_count s1)\<rparr>\<rparr>)"
      by (simp add: loadFeature_def g Let_def)
    then show "loadData tess s (before @ feature # rest) =
              (Some (TessError errno), s2,
               before' @ feature\<lparr>properties :=
                   (properties feature)\<lparr>indexStart := Some (polygons_count s1)\<rparr>\<rparr> # rest)"
      by (simp add: loadData_def loadData_loop_append [OF assms(1)])
  }
qed

theorem tesselation_error_aborts_load_witness:
  "fst (loadData checked_tess WebGLLayer
          [parsed (Point (1, 2)),
           parsed (Polygon [[(lng_too_large, 0), (10, 0), (0, 30)]]),
           parsed (Point (3, 4))]) = Some (TessError 100155) \<and>
   snd (snd (loadData checked_tess WebGLLayer
          [parsed (Point (1, 2)),
           parsed (Polygon [[(lng_too_large, 0), (10, 0), (0, 30)]]),
           parsed (Point (3, 4))])) ! 2 = parsed (Point (3, 4)) \<and>
   fst (loadData checked_tess WebGLLayer
          [parsed (Point (1, 2)),
           parsed (MultiPolygon [[[(0, 0), (10, 0), (0, 30)]], [[(lng_too_large, 0), (10, 0), (0, 30)]]]),
           parsed (Point (3, 4))]) = Some (TessError 100155) \<and>
   snd (snd (loadData checked_tess WebGLLayer
          [parsed (Point (1, 2)),
           parsed (MultiPolygon [[[(0, 0), (10, 0), (0, 30)]], [[(lng_too_large, 0), (10, 0), (0, 30)]]]),
           parsed (Point (3, 4))])) ! 2 = parsed (Point (3, 4))"
proof -
  obtain s1 before' where before:
    "loadData_loop checked_tess WebGLLayer [parsed (Point (1, 2))] = (None, s1, before')"
    by (simp add: loadFeature_def parsed_def Let_def)
  have bad: "checked_tess (map (map coordsToXY) [[(lng_too_large, 0), (10, 0), (0, 30)]]) = Inl 100155"
    using checked_tess_bad by simp
  have "\<forall>part \<in> set [[[(0, 0), (10, 0), (0, 30)]]].
          \<not> isl (checked_tess (map (map coordsToXY) part))"
    using checked_tess_good by simp
  from processParts_ok [OF this, of s1] obtain s2 where ok:
    "processParts checked_tess [[[(0, 0), (10, 0), (0, 30)]]] s1 = (None, s2)"
    by blast
  note t = tesselation_error_aborts_load [where tess = checked_tess, OF before bad]
  have g1: "geometry (parsed (Polygon [[(lng_too_large, 0), (10, 0), (0, 30)]])) =
      Polygon [[(lng_too_large, 0), (10, 0), (0, 30)]]"
    by (simp add: parsed_def)
  have g2: "geometry (parsed (MultiPolygon
        [[[(0, 0), (10, 0), (0, 30)]], [[(lng_too_large, 0), (10, 0), (0, 30)]]])) =
      MultiPolygon ([[[(0, 0), (10, 0), (0, 30)]]] @ [[(lng_too_large, 0), (10, 0), (0, 30)]] # [])"
    by (simp add: parsed_def)
  from t [where feature = "parsed (Polygon [[(lng_too_large, 0), (10, 0), (0, 30)]])"
      and rest = "[parsed (Point (3, 4))]"] g1
  have a: "loadData checked_tess WebGLLayer
          ([parsed (Point (1, 2))] @
           parsed (Polygon [[(lng_too_large, 0), (10, 0), (0, 30)]]) # [parsed (Point (3, 4))]) =
     (Some (TessError 100155), s1,
      before' @ (parsed (Polygon [[(lng_too_large, 0), (10, 0), (0, 30)]]))
                  \<lparr>properties := (properties (parsed (Polygon [[(lng_too_large, 0), (10, 0), (0, 30)]])))
                      \<lparr>indexStart := Some (polygons_count s1)\<rparr>\<rparr> # [parsed (Point (3, 4))])"
    by blast
  from t [where feature = "parsed (MultiPolygon
        [[[(0, 0), (10, 0), (0, 30)]], [[(lng_too_large, 0), (10, 0), (0, 30)]]])"
      and ok = "[[[(0, 0), (10, 0), (0, 30)]]]" and others = "[]" and ?s2.0 = s2
      and rest = "[parsed (Point (3, 4))]"] g2 ok
  have b: "loadData checked_tess WebGLLayer
          ([parsed (Point (1, 2))] @
           parsed (MultiPolygon
             [[[(0, 0), (10, 0), (0, 30)]], [[(lng_too_large, 0), (10, 0), (0, 30)]]])
           # [parsed (Point (3, 4))]) =
     (Some (TessError 100155), s2,
      before' @ (parsed (MultiPolygon
             [[[(0, 0), (10, 0), (0, 30)]], [[(lng_too_large, 0), (10, 0), (0, 30)]]]))
                  \<lparr>properties := (properties (parsed (MultiPolygon
             [[[(0, 0), (10, 0), (0, 30)]], [[(lng_too_large, 0), (10, 0), (0, 30)]]])))
                      \<lparr>indexStart := Some (polygons_count s1)\<rparr>\<rparr> # [parsed (Point (3, 4))])"
    by blast
  have l: "length before' = 1"
    using before by (auto simp: loadFeature_def parsed_def Let_def)
  show ?thesis
    using a b l by (simp add: nth_append)
qed

text \<open>
  A payload of a polygon with the longitude \<open>1e151\<close>, which libtess refuses, and a
  point: \<open>loadData\<close> throws, and the point, which is ingested when it comes alone, is
  not ingested.
\<close>

theorem tesselation_error_counterexample:
  "checked_tess (map (map coordsToXY) [[(lng_too_large, 0), (10, 0), (0, 30)]]) = Inl 100155 \<and>
   (case loadData checked_tess WebGLLayer [parsed (Point (3, 4))] of
      (r, s', features') \<Rightarrow> r = None \<and> points_count s' = 1 \<and> length (points_floats s') = 3) \<and>
   (case loadData checked_tess WebGLLayer
           [parsed (Polygon [[(lng_too_large, 0), (10, 0), (0, 30)]]), parsed (Point (3, 4))] of
      (r, s', features') \<Rightarrow>
        r = Some (TessError 100155) \<and> points_count s' = 0 \<and> points_floats s' = [] \<and>
        features' ! 1 = parsed (Point (3, 4)) \<and> \<not> updateScheduled s')"
proof -
  have bad: "checked_tess (map (map coordsToXY) [[(lng_too_large, 0), (10, 0), (0, 30)]]) = Inl 100155"
    using checked_tess_bad by simp
  have alone: "case loadData checked_tess WebGLLayer [parsed (Point (3, 4))] of
      (r, s', features') \<Rightarrow> r = None \<and> points_count s' = 1 \<and> length (points_floats s') = 3"
    by (simp add: loadData_def loadFeature_def parsed_def Let_def WebGLLayer_def push_def
        onAddFeature_def scheduleUpdate_def)
  have after: "case loadData checked_tess WebGLLayer
           [parsed (Polygon [[(lng_too_large, 0), (10, 0), (0, 30)]]), parsed (Point (3, 4))] of
      (r, s', features') \<Rightarrow>
        r = Some (TessError 100155) \<and> points_count s' = 0 \<and> points_floats s' = [] \<and>
        features' ! 1 = parsed (Point (3, 4)) \<and> \<not> updateScheduled s'"
    by (simp add: loadData_def loadFeature_def parsed_def Let_def WebGLLayer_def
        processPolygon_Inl [where tess = checked_tess, OF bad])
  show ?thesis
    using bad alone after by blast
qed

section \<open>Multi-polygons and points\<close>





lemma loadFeature_points_count:
  "loadFeature tess s feature = (r, s', feature') \<Longrightarrow>
   points_count s' = points_count s + (if isPoint feature then 1 else 0)"
proof (cases "geometry feature")
  case (Point c)
  then show "loadFeature tess s feature = (r, s', feature') \<Longrightarrow> ?thesis"
    by (auto simp: loadFeature_def isPoint_def onAddFeature_def Let_def)
next
  case (Polygon cs)
  assume l: "loadFeature tess s feature = (r, s', feature')"
  show ?thesis
  proof (cases rule: processPolygon_cases [of tess cs s])
    case (thrown errno)
    then show ?thesis
      using l Polygon by (auto simp: loadFeature_def isPoint_def Let_def)
  next
    case (appended vs s1)
    then show ?thesis
      using l Polygon by (auto simp: loadFeature_def isPoint_def Let_def onAddFeature_def)
  qed
next
  case (MultiPolygon parts)
  assume l: "loadFeature tess s feature = (r, s', feature')"
  have parts: "processParts tess parts s = (r1, s1) \<Longrightarrow> points_count s1 = points_count s"
    for r1 s1
  proof (induction parts arbitrary: s)
    case Nil
    then show ?case by simp
  next
    case (Cons part parts)
    show ?case
    proof (cases rule: processPolygon_cases [of tess part s])
      case (thrown errno)
      then show ?thesis
        using Cons.prems by simp
    next
      case (appended vs s2)
      have "processParts tess parts
              (s2\<lparr>polygons_borderCounts :=
                    polygons_borderCounts s2 @ [polygons_borderCount s2 - polygons_borderCount s]\<rparr>)
            = (r1, s1)"
        using Cons.prems appended(2) by simp
      from Cons.IH [OF this] show ?thesis
        using appended(6) by simp
    qed
  qed
  obtain r1 s1 where p: "processParts tess parts s = (r1, s1)"
    by (cases "processParts tess parts s")
  show ?thesis
    using l MultiPolygon p parts [OF p]
    by (cases r1) (auto simp: loadFeature_def isPoint_def Let_def onAddFeature_def)
next
  case (Unsupported t)
  then show "loadFeature tess s feature = (r, s', feature') \<Longrightarrow> ?thesis"
    by (auto simp: loadFeature_def isPoint_def)
qed

lemma loadFeature_point_index:
  "isPoint feature \<Longrightarrow> loadFeature tess s feature = (r, s', feature') \<Longrightarrow>
   index (properties feature') = Some (points_count s)"
  by (cases "geometry feature") (auto simp: loadFeature_def isPoint_def onAddFeature_def Let_def)

lemma loadData_loop_point_order:
  "loadData_loop tess s features = (None, s', features') \<Longrightarrow>
   length features' = length features \<and>
   (\<forall>i < length features. isPoint (features ! i) \<longrightarrow>
      index (properties (features' ! i)) =
        Some (points_count s + length (filter isPoint (take i features))))"
proof (induction features arbitrary: s features')
  case Nil
  then show ?case by simp
next
  case (Cons f features)
  obtain r0 s0 f0 where f: "loadFeature tess s f = (r0, s0, f0)"
    by (cases "loadFeature tess s f")
  obtain r2 s2 fs2 where l: "loadData_loop tess s0 features = (r2, s2, fs2)"
    by (cases "loadData_loop tess s0 features")
  from Cons.prems f l have r: "r0 = None" "r2 = None" "s2 = s'" "features' = f0 # fs2"
    by (auto split: option.splits)
  note ih = Cons.IH [of s0 fs2, unfolded l r, simplified]
  note c = loadFeature_points_count [OF f]
  show ?case
  proof (intro conjI allI impI)
    show "length features' = length (f # features)"
      using ih r by simp
  next
    fix i
    assume i: "i < length (f # features)" and p: "isPoint ((f # features) ! i)"
    show "index (properties (features' ! i)) =
        Some (points_count s + length (filter isPoint (take i (f # features))))"
    proof (cases i)
      case 0
      then show ?thesis
        using p r loadFeature_point_index [OF _ f] by simp
    next
      case (Suc j)
      then show ?thesis
        using i p r ih c by simp
    qed
  qed
qed

text \<open>
  C6. Ingesting a Point feature appends the three floats \<open>x\<close>, \<open>y\<close> and the packed
  default colour to the point floats, stamps \<open>index\<close> with the point count before, and
  sets the dirty flag of the points. In a payload that \<open>loadData\<close> ingests, the index of
  a point is the point count at the start plus the number of points before it in the
  payload: from the constructor's state, its 0-based insertion order.
\<close>

theorem point_ingestion:
  "(case loadFeature tess s \<lparr>geometry = Point (lng, lat), properties = p\<rparr> of
      (r, s', feature') \<Rightarrow>
        r = None \<and>
        points_floats s' =
          points_floats s @
            [Some (lngToX lng), Some (latToY lat), Some (packColor (points_defaultColor s))] \<and>
        length (points_floats s') = length (points_floats s) + 3 \<and>
        index (properties feature') = Some (points_count s) \<and>
        points_count s' = points_count s + 1 \<and>
        points_changed s') \<and>
   (loadData tess s features = (None, s1, features') \<and> i < length features \<and>
    isPoint (features ! i) \<longrightarrow>
      index (properties (features' ! i)) =
        Some (points_count s + length (filter isPoint (take i features)))) \<and>
   points_count WebGLLayer = 0"
proof (intro conjI impI)
  show "case loadFeature tess s \<lparr>geometry = Point (lng, lat), properties = p\<rparr> of
      (r, s', feature') \<Rightarrow>
        r = None \<and>
        points_floats s' =
          points_floats s @
            [Some (lngToX lng), Some (latToY lat), Some (packColor (points_defaultColor s))] \<and>
        length (points_floats s') = length (points_floats s) + 3 \<and>
        index (properties feature') = Some (points_count s) \<and>
        points_count s' = points_count s + 1 \<and>
        points_changed s'"
    by (simp add: loadFeature_def Let_def push_def coordsToXY_def onAddFeature_def)
next
  assume a: "loadData tess s features = (None, s1, features') \<and> i < length features \<and>
    isPoint (features ! i)"
  obtain r2 s2 fs2 where l: "loadData_loop tess s features = (r2, s2, fs2)"
    by (cases "loadData_loop tess s features")
  from a l have "r2 = None" "fs2 = features'"
    by (auto simp: loadData_def split: option.splits)
  with l have "loadData_loop tess s features = (None, s2, features')"
    by simp
  from loadData_loop_point_order [OF this] a
  show "index (properties (features' ! i)) =
        Some (points_count s + length (filter isPoint (take i features)))"
    by blast
next
  show "points_count WebGLLayer = 0"
    by (simp add: WebGLLayer_def)
qed

theorem point_ingestion_witness:
  "loadData fan_tess WebGLLayer
     [parsed (Point (1, 2)), parsed (Polygon [[(0, 0), (10, 0), (0, 10)]]), parsed (Point (3, 4))]
   = (None,
      fst (snd (loadData fan_tess WebGLLayer
        [parsed (Point (1, 2)), parsed (Polygon [[(0, 0), (10, 0), (0, 10)]]),
         parsed (Point (3, 4))])),
      snd (snd (loadData fan_tess WebGLLayer
        [parsed (Point (1, 2)), parsed (Polygon [[(0, 0), (10, 0), (0, 10)]]),
         parsed (Point (3, 4))]))) \<and>
   isPoint ([parsed (Point (1, 2)), parsed (Polygon [[(0, 0), (10, 0), (0, 10)]]),
             parsed (Point (3, 4))] ! 2) \<and>
   index (properties (snd (snd (loadData fan_tess WebGLLayer
        [parsed (Point (1, 2)), parsed (Polygon [[(0, 0), (10, 0), (0, 10)]]),
         parsed (Point (3, 4))])) ! 2)) = Some 1"
proof -
  let ?fs = "[parsed (Point (1, 2)), parsed (Polygon [[(0, 0), (10, 0), (0, 10)]]),
              parsed (Point (3, 4))]"
  have t: "fan_tess (map (map coordsToXY) [[(0, 0), (10, 0), (0, 10)]]) =
      Inr [coordsToXY (0, 0), coordsToXY (10, 0), coordsToXY (0, 10)]"
    by (simp add: fan_tess_def)
  have r: "fst (loadData fan_tess WebGLLayer ?fs) = None"
    by (simp add: loadData_def loadFeature_def parsed_def Let_def onAddFeature_def
        processPolygon_Inr [where tess = fan_tess, OF t])
  then have e: "loadData fan_tess WebGLLayer ?fs =
      (None, fst (snd (loadData fan_tess WebGLLayer ?fs)),
       snd (snd (loadData fan_tess WebGLLayer ?fs)))"
    by (metis prod.collapse)
  have p: "isPoint (?fs ! 2)"
    by (simp add: isPoint_def parsed_def)
  have c: "points_count WebGLLayer + length (filter isPoint (take 2 ?fs)) = 1"
    by (simp add: isPoint_def parsed_def WebGLLayer_def)
  from point_ingestion [where tess = fan_tess and s = WebGLLayer and features = ?fs and i = 2
      and ?s1.0 = "fst (snd (loadData fan_tess WebGLLayer ?fs))"
      and features' = "snd (snd (loadData fan_tess WebGLLayer ?fs))"] e p
  have "index (properties (snd (snd (loadData fan_tess WebGLLayer ?fs)) ! 2)) =
      Some (points_count WebGLLayer + length (filter isPoint (take 2 ?fs)))"
    by simp
  then show ?thesis
    using e p unfolding c by blast
qed

section \<open>The invariant of the border counts\<close>

lemma borderCounts_inv_nat:
  "borderCounts_inv s \<longleftrightarrow>
   3 * sum_list (polygons_borderCounts s) = length (polygons_borderFloats s)"
proof -
  have "real a = real b / 3 \<longleftrightarrow> 3 * a = b" for a b :: nat
  proof -
    have "real a = real b / 3 \<longleftrightarrow> real (3 * a) = real b"
      by (simp add: field_simps)
    also have "\<dots> \<longleftrightarrow> 3 * a = b"
      by (simp only: of_nat_eq_iff)
    finally show ?thesis .
  qed
  then show ?thesis
    by (simp add: borderCounts_inv_def)
qed

lemma processParts_inv:
  "processParts tess parts s = (r, s') \<Longrightarrow> borderCounts_inv s \<Longrightarrow> borderCounts_inv s'"
proof (induction parts arbitrary: s)
  case Nil
  then show ?case by simp
next
  case (Cons part parts)
  show ?case
  proof (cases rule: processPolygon_cases [of tess part s])
    case (thrown errno)
    then show ?thesis
      using Cons.prems by simp
  next
    case (appended vs s1)
    let ?s2 = "s1\<lparr>polygons_borderCounts :=
                    polygons_borderCounts s1 @ [polygons_borderCount s1 - polygons_borderCount s]\<rparr>"
    have "processParts tess parts ?s2 = (r, s')"
      using Cons.prems(1) appended(2) by simp
    moreover have "borderCounts_inv ?s2"
      using Cons.prems(2) appended(3,4,5) by (simp add: borderCounts_inv_nat)
    ultimately show ?thesis
      by (rule Cons.IH)
  qed
qed

lemma loadFeature_inv:
  assumes "loadFeature tess s feature = (r, s', feature')" and "borderCounts_inv s"
  shows "borderCounts_inv s'"
proof (cases "geometry feature")
  case (Point c)
  then show ?thesis
    using assms by (auto simp: loadFeature_def onAddFeature_def Let_def borderCounts_inv_nat)
next
  case (Polygon cs)
  show ?thesis
  proof (cases rule: processPolygon_cases [of tess cs s])
    case (thrown errno)
    then show ?thesis
      using assms Polygon by (auto simp: loadFeature_def Let_def)
  next
    case (appended vs s1)
    then show ?thesis
      using assms Polygon
      by (auto simp: loadFeature_def Let_def onAddFeature_def borderCounts_inv_nat)
  qed
next
  case (MultiPolygon parts)
  obtain r1 s1 where p: "processParts tess parts s = (r1, s1)"
    by (cases "processParts tess parts s")
  from processParts_inv [OF p assms(2)] show ?thesis
    using assms(1) MultiPolygon p
    by (cases r1) (auto simp: loadFeature_def Let_def onAddFeature_def borderCounts_inv_nat)
next
  case (Unsupported t)
  then show ?thesis
    using assms by (auto simp: loadFeature_def)
qed

lemma loadData_loop_inv:
  "loadData_loop tess s features = (r, s', features') \<Longrightarrow> borderCounts_inv s \<Longrightarrow>
   borderCounts_inv s'"
proof (induction features arbitrary: s features' r)
  case Nil
  then show ?case by simp
next
  case (Cons f features)
  obtain r0 s0 f0 where f: "loadFeature tess s f = (r0, s0, f0)"
    by (cases "loadFeature tess s f")
  note i0 = loadFeature_inv [OF f Cons.prems(2)]
  show ?case
  proof (cases r0)
    case None
    obtain r2 s2 fs2 where l: "loadData_loop tess s0 features = (r2, s2, fs2)"
      by (cases "loadData_loop tess s0 features")
    from Cons.prems(1) f l None have "s2 = s'"
      by simp
    with l have "loadData_loop tess s0 features = (r2, s', fs2)"
      by simp
    from Cons.IH [OF this i0] show ?thesis .
  next
    case (Some e)
    with Cons.prems(1) f i0 show ?thesis
      by simp
  qed
qed

lemma loadData_inv:
  assumes "loadData tess s features = (r, s', features')" and "borderCounts_inv s"
  shows "borderCounts_inv s'"
proof -
  obtain r2 s2 fs2 where l: "loadData_loop tess s features = (r2, s2, fs2)"
    by (cases "loadData_loop tess s features")
  note i = loadData_loop_inv [OF l assms(2)]
  show ?thesis
    using assms(1) l i
    by (cases r2) (auto simp: loadData_def scheduleUpdate_def borderCounts_inv_nat)
qed

text \<open>
  C7. In every state of a layer the entries of \<open>borderCounts\<close> add up to a third of the
  length of the border floats, and ingesting a feature (a Polygon or MultiPolygon among
  them, whether or not its tesselation fails) preserves that.
\<close>

theorem borderCounts_invariant:
  "(reachable s \<longrightarrow> borderCounts_inv s) \<and>
   (borderCounts_inv s \<and> loadFeature tess s feature = (r, s', feature') \<longrightarrow>
      borderCounts_inv s')"
proof (intro conjI impI)
  assume "reachable s"
  then show "borderCounts_inv s"
  proof (induction rule: reachable.induct)
    case constructed
    show ?case
      by (simp add: borderCounts_inv_def WebGLLayer_def)
  next
    case (loaded s tess features r s' features')
    then show ?case
      using loadData_inv by blast
  next
    case (pointColor s idx color)
    then show ?case
      by (simp add: borderCounts_inv_def changePointColor_def scheduleUpdate_def Let_def)
  next
    case (polyColor s idxStart idxEnd color)
    then show ?case
      by (simp add: borderCounts_inv_def changePolyColor_def scheduleUpdate_def Let_def)
  next
    case (defaultColor s color)
    then show ?case
      by (simp add: borderCounts_inv_def setDefaultPointColor_def)
  qed
next
  assume "borderCounts_inv s \<and> loadFeature tess s feature = (r, s', feature')"
  then show "borderCounts_inv s'"
    using loadFeature_inv by blast
qed

theorem borderCounts_invariant_witness:
  "reachable (fst (snd (loadData fan_tess WebGLLayer
      [parsed (MultiPolygon
              [[[(0, 0), (10, 0), (10, 10), (0, 10)]], [[(20, 0), (30, 0), (20, 10)]]])]))) \<and>
   polygons_borderCounts (fst (snd (loadData fan_tess WebGLLayer
      [parsed (MultiPolygon
              [[[(0, 0), (10, 0), (10, 10), (0, 10)]], [[(20, 0), (30, 0), (20, 10)]]])])))
     = [4, 3] \<and>
   length (polygons_borderFloats (fst (snd (loadData fan_tess WebGLLayer
      [parsed (MultiPolygon
              [[[(0, 0), (10, 0), (10, 10), (0, 10)]], [[(20, 0), (30, 0), (20, 10)]]])]))))
     = 21 \<and>
   borderCounts_inv (fst (snd (loadData fan_tess WebGLLayer
      [parsed (MultiPolygon
              [[[(0, 0), (10, 0), (10, 10), (0, 10)]], [[(20, 0), (30, 0), (20, 10)]]])]))) \<and>
   borderCounts_inv WebGLLayer \<and>
   borderCounts_inv (fst (snd (loadFeature fan_tess WebGLLayer
      (parsed (Polygon [[(0, 0), (10, 0), (0, 10)]])))))"
proof -
  let ?fs = "[parsed (MultiPolygon
              [[[(0, 0), (10, 0), (10, 10), (0, 10)]], [[(20, 0), (30, 0), (20, 10)]]])]"
  let ?s = "fst (snd (loadData fan_tess WebGLLayer ?fs))"
  have "loadData fan_tess WebGLLayer ?fs =
      (fst (loadData fan_tess WebGLLayer ?fs), ?s, snd (snd (loadData fan_tess WebGLLayer ?fs)))"
    by simp
  from reachable.loaded [OF reachable.constructed this]
  have re: "reachable ?s" .
  have i: "borderCounts_inv ?s"
    using borderCounts_invariant [of ?s] re by blast
  have c: "polygons_borderCounts ?s = [4, 3]"
    by (simp add: loadData_def loadFeature_def parsed_def Let_def onAddFeature_def
        processPolygon_def fan_tess_def WebGLLayer_def scheduleUpdate_def
        borderPoint_def push_def)
  have f: "length (polygons_borderFloats ?s) = 21"
    by (simp add: loadData_def loadFeature_def parsed_def Let_def onAddFeature_def
        processPolygon_def fan_tess_def WebGLLayer_def scheduleUpdate_def
        borderPoint_def push_def)
  have w: "borderCounts_inv WebGLLayer"
    by (simp add: borderCounts_inv_def WebGLLayer_def)
  have "loadFeature fan_tess WebGLLayer (parsed (Polygon [[(0, 0), (10, 0), (0, 10)]])) =
      (fst (loadFeature fan_tess WebGLLayer (parsed (Polygon [[(0, 0), (10, 0), (0, 10)]]))),
       fst (snd (loadFeature fan_tess WebGLLayer (parsed (Polygon [[(0, 0), (10, 0), (0, 10)]])))),
       snd (snd (loadFeature fan_tess WebGLLayer (parsed (Polygon [[(0, 0), (10, 0), (0, 10)]])))))"
    by simp
  with w have p: "borderCounts_inv (fst (snd (loadFeature fan_tess WebGLLayer
      (parsed (Polygon [[(0, 0), (10, 0), (0, 10)]])))))"
    using borderCounts_invariant [of WebGLLayer fan_tess] by blast
  show ?thesis
    using re i c f w p by blast
qed

section \<open>Recolouring\<close>

lemma length_js_store:
  "i < length a \<Longrightarrow> length (js_store a i v) = length a"
  by (simp add: js_store_def)

lemma nth_js_store:
  "i < length a \<Longrightarrow> k < length a \<Longrightarrow>
   js_store a i v ! k = (if k = i then Some v else a ! k)"
  by (simp add: js_store_def nth_list_update)

text \<open>
  What the loop of \<open>changePolyColor\<close> does on an array that holds the triple \<open>idxEnd\<close>:
  it overwrites the third float of every triple from \<open>i\<close> up to and including \<open>idxEnd\<close>,
  and no other cell.
\<close>

lemma changePolyColor_loop_in_range:
  "idxEnd * 3 + 2 < length floats \<Longrightarrow>
   length (changePolyColor_loop i idxEnd color floats) = length floats \<and>
   (\<forall>k < length floats.
      changePolyColor_loop i idxEnd color floats ! k =
        (if \<exists>j. i \<le> j \<and> j \<le> idxEnd \<and> k = j * 3 + 2 then Some (packColor color)
         else floats ! k))"
proof (induction i idxEnd color floats rule: changePolyColor_loop.induct)
  case (1 i idxEnd color floats)
  show ?case
  proof (cases "i \<le> idxEnd")
    case False
    then show ?thesis
      by (subst (1 2) changePolyColor_loop.simps) auto
  next
    case True
    let ?f = "js_store floats (i * 3 + 2) (packColor color)"
    have ir: "i * 3 + 2 < length floats"
      using True "1.prems" by linarith
    have lf: "length ?f = length floats"
      using ir by (rule length_js_store)
    have ih: "length (changePolyColor_loop (i + 1) idxEnd color ?f) = length ?f \<and>
      (\<forall>k < length ?f.
        changePolyColor_loop (i + 1) idxEnd color ?f ! k =
          (if \<exists>j. i + 1 \<le> j \<and> j \<le> idxEnd \<and> k = j * 3 + 2 then Some (packColor color)
           else ?f ! k))"
      using "1.IH" [OF True] "1.prems" lf by simp
    have step: "changePolyColor_loop i idxEnd color floats =
        changePolyColor_loop (i + 1) idxEnd color ?f"
      using True by (subst changePolyColor_loop.simps) simp
    show ?thesis
    proof (intro conjI allI impI)
      show "length (changePolyColor_loop i idxEnd color floats) = length floats"
        using ih lf step by simp
    next
      fix k
      assume k: "k < length floats"
      have e: "(\<exists>j. i \<le> j \<and> j \<le> idxEnd \<and> k = j * 3 + 2) \<longleftrightarrow>
          k = i * 3 + 2 \<or> (\<exists>j. i + 1 \<le> j \<and> j \<le> idxEnd \<and> k = j * 3 + 2)"
      proof
        assume "\<exists>j. i \<le> j \<and> j \<le> idxEnd \<and> k = j * 3 + 2"
        then obtain j where j: "i \<le> j" "j \<le> idxEnd" "k = j * 3 + 2"
          by blast
        show "k = i * 3 + 2 \<or> (\<exists>j. i + 1 \<le> j \<and> j \<le> idxEnd \<and> k = j * 3 + 2)"
        proof (cases "j = i")
          case True
          with j show ?thesis by simp
        next
          case False
          with j have "i + 1 \<le> j" by simp
          with j show ?thesis by blast
        qed
      next
        assume "k = i * 3 + 2 \<or> (\<exists>j. i + 1 \<le> j \<and> j \<le> idxEnd \<and> k = j * 3 + 2)"
        then show "\<exists>j. i \<le> j \<and> j \<le> idxEnd \<and> k = j * 3 + 2"
        proof
          assume "k = i * 3 + 2"
          with True show ?thesis by blast
        next
          assume "\<exists>j. i + 1 \<le> j \<and> j \<le> idxEnd \<and> k = j * 3 + 2"
          then obtain j where "i + 1 \<le> j" "j \<le> idxEnd" "k = j * 3 + 2"
            by blast
          then have "i \<le> j \<and> j \<le> idxEnd \<and> k = j * 3 + 2"
            by simp
          then show ?thesis ..
        qed
      qed
      have "changePolyColor_loop i idxEnd color floats ! k =
          (if \<exists>j. i + 1 \<le> j \<and> j \<le> idxEnd \<and> k = j * 3 + 2 then Some (packColor color)
           else ?f ! k)"
        using ih k lf step by simp
      also have "\<dots> = (if \<exists>j. i \<le> j \<and> j \<le> idxEnd \<and> k = j * 3 + 2
          then Some (packColor color) else floats ! k)"
        unfolding e using nth_js_store [OF ir k] by auto
      finally show "changePolyColor_loop i idxEnd color floats ! k =
          (if \<exists>j. i \<le> j \<and> j \<le> idxEnd \<and> k = j * 3 + 2 then Some (packColor color)
           else floats ! k)" .
    qed
  qed
qed

text \<open>
  On the layer: \<open>changePolyColor\<close> sets the dirty flag of the polygons, schedules an
  update, and changes no \<open>x\<close> or \<open>y\<close>; the colours it changes are those of the triples
  \<open>idxStart\<close> to \<open>idxEnd\<close>, both included.
\<close>

lemma changePolyColor_in_range:
  assumes "idxEnd * 3 + 2 < length (polygons_floats s)"
  shows "polygons_changed (changePolyColor idxStart idxEnd color s) \<and>
         updateScheduled (changePolyColor idxStart idxEnd color s) \<and>
         length (polygons_floats (changePolyColor idxStart idxEnd color s)) =
           length (polygons_floats s) \<and>
         (\<forall>k < length (polygons_floats s).
            polygons_floats (changePolyColor idxStart idxEnd color s) ! k =
              (if \<exists>j. idxStart \<le> j \<and> j \<le> idxEnd \<and> k = j * 3 + 2
               then Some (packColor color) else polygons_floats s ! k))"
  using changePolyColor_loop_in_range [OF assms, of idxStart color]
  by (simp add: changePolyColor_def Let_def scheduleUpdate_def)

text \<open>
  C3 at a concrete layer. Two triangles are ingested; \<open>loadData\<close> stamps the first with
  the range \<open>0, 3\<close> and the second with \<open>3, 6\<close>. \<open>changePolyColor(0, 3, blue)\<close> then
  overwrites the colour of the triples 0, 1, 2 and also of triple 3, the first vertex
  of the second triangle. With the range \<open>3, 6\<close> of the last polygon it writes the
  cell \<open>6 * 3 + 2 = 20\<close> past the end of the 18 floats, which grows the array by a triple
  whose \<open>x\<close> and \<open>y\<close> are holes.
\<close>

theorem changePolyColor_recolors_idxEnd:
  "(case loadData fan_tess WebGLLayer
           [parsed (Polygon [[(0, 0), (10, 0), (0, 10)]]),
            parsed (Polygon [[(20, 0), (30, 0), (20, 10)]])] of
      (r, s, features) \<Rightarrow>
        r = None \<and>
        indexStart (properties (features ! 0)) = Some 0 \<and>
        indexEnd (properties (features ! 0)) = Some 3 \<and>
        indexStart (properties (features ! 1)) = Some 3 \<and>
        indexEnd (properties (features ! 1)) = Some 6 \<and>
        length (polygons_floats s) = 18 \<and>
        polygons_floats s ! (3 * 3 + 2) = Some (packColor (1, 0, 0)) \<and>
        polygons_floats (changePolyColor 0 3 (0, 0, 1) s) ! (3 * 3 + 2) = Some (packColor (0, 0, 1)) \<and>
        packColor (0, 0, 1) \<noteq> packColor (1, 0, 0) \<and>
        length (polygons_floats (changePolyColor 3 6 (0, 0, 1) s)) = 21 \<and>
        polygons_floats (changePolyColor 3 6 (0, 0, 1) s) ! 18 = None \<and>
        polygons_floats (changePolyColor 3 6 (0, 0, 1) s) ! 20 = Some (packColor (0, 0, 1)))"
  by (simp add: loadData_def loadFeature_def parsed_def Let_def onAddFeature_def
      processPolygon_def fan_tess_def WebGLLayer_def scheduleUpdate_def
      borderPoint_def vertexCallback_def push_def changePolyColor_def
      changePolyColor_loop.simps js_store_def packColor_def nth_append)

end
